theory Spec2Isabelle
  imports Complex_Main
begin

section \<open>The remote agent: text and files\<close>

text \<open>
  The agent (the wrapper script of \<^verbatim>\<open>ssh_wrapper.py\<close>) is a POSIX shell script. Its
  values are byte strings; its state lives in shell variables and in the files of one
  directory per job.  The model follows the script line by line.  It covers field
  splitting of an unquoted expansion on the default IFS, command substitution, echo
  with redirection, touch, rm, cat, test, and the pipeline grep | tail that reads the
  current state.  It does not cover file permissions or the number printed in the
  prompt line.  Pathname expansion of unquoted expansions and the backslash processing
  of read are not modelled either: the command loop is modelled for the lines that
  plain_line describes, whose fields hold no backslash and none of the characters that
  start a pathname pattern.
\<close>

definition NL :: char where
  "NL = CHR 0x0A"

definition TAB :: char where
  "TAB = CHR 0x09"

definition SP :: char where
  "SP = CHR '' ''"

definition is_ifs :: "char \<Rightarrow> bool" where
  "is_ifs c = (c = SP \<or> c = TAB \<or> c = NL)"

text \<open>Field splitting of an unquoted expansion: the maximal runs of non-IFS bytes.\<close>

fun split_fields :: "string \<Rightarrow> string \<Rightarrow> string list" where
  "split_fields acc [] = (if acc = [] then [] else [acc])"
| "split_fields acc (c # cs) =
     (if is_ifs c then (if acc = [] then split_fields [] cs else acc # split_fields [] cs)
      else split_fields (acc @ [c]) cs)"

definition split_IFS :: "string \<Rightarrow> string list" where
  "split_IFS s = split_fields [] s"

text \<open>A token: a non-empty string without IFS bytes, which is what a field is.\<close>

definition token :: "string \<Rightarrow> bool" where
  "token t = (t \<noteq> [] \<and> \<not> list_ex is_ifs t)"

text \<open>The positional parameters joined by single spaces, as by \<^verbatim>\<open>"$*"\<close>, by \<^verbatim>\<open>$@\<close> in an
  assignment, and by echo between its arguments.\<close>

fun join_sp :: "string list \<Rightarrow> string" where
  "join_sp [] = []"
| "join_sp [t] = t"
| "join_sp (t # u # us) = t @ SP # join_sp (u # us)"

text \<open>\<^verbatim>\<open>read LINE\<close> removes leading and trailing IFS white space from the line.  (It
  also removes backslashes and joins a line that ends in one with the next line; this
  is not modelled, and lines with a backslash are not plain.)\<close>

definition read_LINE :: "string \<Rightarrow> string" where
  "read_LINE s = rev (dropWhile is_ifs (rev (dropWhile is_ifs s)))"

text \<open>Command substitution removes all trailing newlines of the output.\<close>

definition cmdsubst :: "string \<Rightarrow> string" where
  "cmdsubst s = rev (dropWhile (\<lambda>c. c = NL) (rev s))"

text \<open>The lines of a file as grep reads them; a last line without newline counts.\<close>

fun split_lines :: "string \<Rightarrow> string \<Rightarrow> string list" where
  "split_lines acc [] = (if acc = [] then [] else [acc])"
| "split_lines acc (c # cs) =
     (if c = NL then acc # split_lines [] cs else split_lines (acc @ [c]) cs)"

text \<open>\<^verbatim>\<open>grep -e ' $' file | tail -n 1\<close> inside backquotes: the last line that ends in a
  space, without its newline; empty when no line matches.\<close>

definition grep_sp_eol :: "string \<Rightarrow> string list" where
  "grep_sp_eol content = filter (\<lambda>l. l \<noteq> [] \<and> last l = SP) (split_lines [] content)"

definition last_state_line :: "string \<Rightarrow> string" where
  "last_state_line content = (case grep_sp_eol content of [] \<Rightarrow> [] | l # ls \<Rightarrow> last (l # ls))"

text \<open>Decimal numerals, as the shell prints \<^verbatim>\<open>$?\<close>, and reading them back.\<close>

definition digit_char :: "nat \<Rightarrow> char" where
  "digit_char d = ''0123456789'' ! d"

fun string_of_nat :: "nat \<Rightarrow> string" where
  "string_of_nat n = (if n < 10 then [digit_char n] else string_of_nat (n div 10) @ [digit_char (n mod 10)])"

definition is_digit :: "char \<Rightarrow> bool" where
  "is_digit c = ((48::nat) \<le> of_char c \<and> of_char c \<le> (57::nat))"

fun nat_of_digits :: "nat \<Rightarrow> string \<Rightarrow> nat option" where
  "nat_of_digits acc [] = Some acc"
| "nat_of_digits acc (c # cs) =
     (if is_digit c then nat_of_digits (10 * acc + (of_char c - 48)) cs else None)"

declare string_of_nat.simps [simp del]

definition nat_of_string :: "string \<Rightarrow> nat option" where
  "nat_of_string s = (if s = [] then None else nat_of_digits 0 s)"

text \<open>
  A field is plain when pathname expansion leaves it alone and read and echo find no
  backslash in it: it holds none of the characters * ? [ and no backslash.  A line is
  plain when all its fields are.
\<close>

definition has_backslash :: "string \<Rightarrow> bool" where
  "has_backslash s = (CHR 0x5C \<in> set s)"




text \<open>
  echo, the builtin of the shell, by its operands.  A first operand that is exactly -n
  is taken as the option: the other operands are written, joined by single spaces,
  without a newline.  Otherwise the operands are written, joined by single spaces, and
  a newline.  Where the shells differ the result is None: for an operand with a
  backslash (dash interprets escapes, bash does not), and for an operand in option
  position that is a dash followed by letters n, e, E other than -n itself (bash takes
  it as options, dash writes it).
\<close>

definition is_echo_option :: "string \<Rightarrow> bool" where
  "is_echo_option a =
     (case a of
        c # d # ds \<Rightarrow> c = CHR ''-'' \<and> list_all (\<lambda>x. x \<in> set ''neE'') (d # ds)
      | _ \<Rightarrow> False)"

definition echo_text :: "string list \<Rightarrow> string option" where
  "echo_text operands =
     (if list_ex has_backslash operands then None
      else case operands of
        [] \<Rightarrow> Some [NL]
      | a # rest \<Rightarrow>
          if a = ''-n''
          then (case rest of
                  [] \<Rightarrow> Some []
                | b # _ \<Rightarrow> if is_echo_option b then None else Some (join_sp rest))
          else if is_echo_option a then None
          else Some (join_sp operands @ [NL]))"

subsection \<open>Job records\<close>

text \<open>
  One directory per job under BASE.  A file is its content, or None when it does not
  exist; a marker file only exists or not.  \<^verbatim>\<open>test -r\<close> is existence.
\<close>

record jobdir =
  f_cmd :: "string option"
  f_in :: "string option"
  f_pid :: "string option"
  f_state :: "string option"
  f_exit :: "string option"
  f_state_susp :: "string option"
  m_suspended :: bool
  m_resumed :: bool
  m_canceled :: bool

text \<open>
  BASE maps a directory name to the directory.  Names are compared as strings (job ids
  are pids; names with a slash, or dot and dot-dot, are outside the model).  The empty
  name stands for BASE itself, which \<^verbatim>\<open>"$BASE/$1"\<close> names when \<^verbatim>\<open>$1\<close> is empty.
\<close>

type_synonym basedir = "string \<Rightarrow> jobdir option"

text \<open>
  The shell variables the handlers share.  DIR is None while the variable is unset
  (then \<^verbatim>\<open>"$DIR/state"\<close> is a path outside BASE, taken as not existing), and
  Some d when it is \<^verbatim>\<open>"$BASE/d"\<close>.
\<close>

record shell =
  ERROR :: string
  RETVAL :: string
  DIR :: "string option"
  BASE :: basedir

definition arg1 :: "string list \<Rightarrow> string" where
  "arg1 args = (case args of [] \<Rightarrow> [] | a # _ \<Rightarrow> a)"

definition the_dir :: "shell \<Rightarrow> jobdir option" where
  "the_dir sh = (case DIR sh of None \<Rightarrow> None | Some d \<Rightarrow> BASE sh d)"

definition file_of :: "shell \<Rightarrow> (jobdir \<Rightarrow> string option) \<Rightarrow> string option" where
  "file_of sh f = (case the_dir sh of None \<Rightarrow> None | Some j \<Rightarrow> f j)"

definition upd_dir :: "shell \<Rightarrow> (jobdir \<Rightarrow> jobdir) \<Rightarrow> shell" where
  "upd_dir sh g =
     (case DIR sh of None \<Rightarrow> sh
      | Some d \<Rightarrow> (case BASE sh d of None \<Rightarrow> sh | Some j \<Rightarrow> sh\<lparr>BASE := (BASE sh)(d \<mapsto> g j)\<rparr>))"

text \<open>\<^verbatim>\<open>echo text >> file\<close> and \<^verbatim>\<open>cat file\<close> in backquotes.\<close>

definition echo_append :: "string option \<Rightarrow> string \<Rightarrow> string option" where
  "echo_append f s = Some ((case f of None \<Rightarrow> [] | Some c \<Rightarrow> c) @ s @ [NL])"

definition cat_subst :: "string option \<Rightarrow> string" where
  "cat_subst f = (case f of None \<Rightarrow> [] | Some c \<Rightarrow> cmdsubst c)"

definition state_subst :: "shell \<Rightarrow> string" where
  "state_subst sh = (case file_of sh f_state of None \<Rightarrow> [] | Some c \<Rightarrow> last_state_line c)"

text \<open>The state token that STATE reads from a directory.\<close>

definition job_state :: "jobdir \<Rightarrow> string" where
  "job_state j = (case f_state j of None \<Rightarrow> [] | Some c \<Rightarrow> last_state_line c)"

subsection \<open>The verify helpers\<close>

text \<open>
  Each returns the shell and whether its exit status is 0.  As in the script,
  verify_state, verify_pid and verify_in call verify_dir and ignore its status.
\<close>

definition verify_dir :: "shell \<Rightarrow> string list \<Rightarrow> shell \<times> bool" where
  "verify_dir sh args =
     (if arg1 args = [] then (sh\<lparr>ERROR := ''no pid given''\<rparr>, False)
      else let sh1 = sh\<lparr>DIR := Some (arg1 args)\<rparr> in
        if the_dir sh1 = None then (sh1\<lparr>ERROR := ''pid '' @ arg1 args @ '' not known''\<rparr>, False)
        else (sh1, True))"

definition verify_pid :: "shell \<Rightarrow> string list \<Rightarrow> shell \<times> bool" where
  "verify_pid sh args =
     (let sh1 = fst (verify_dir sh args) in
      if file_of sh1 f_pid = None
      then (sh1\<lparr>ERROR := ''pid '' @ arg1 args @ '' has no process id''\<rparr>, False)
      else (sh1, True))"

definition verify_state :: "shell \<Rightarrow> string list \<Rightarrow> shell \<times> bool" where
  "verify_state sh args =
     (let sh1 = fst (verify_dir sh args) in
      if file_of sh1 f_state = None
      then (sh1\<lparr>ERROR := ''pid '' @ arg1 args @ '' has no state''\<rparr>, False)
      else (sh1, True))"

definition verify_in :: "shell \<Rightarrow> string list \<Rightarrow> shell \<times> bool" where
  "verify_in sh args =
     (let sh1 = fst (verify_dir sh args) in
      if file_of sh1 f_in = None
      then (sh1\<lparr>ERROR := ''pid '' @ arg1 args @ '' has no stdin''\<rparr>, False)
      else (sh1, True))"

subsection \<open>The handlers\<close>

definition cmd_state :: "shell \<Rightarrow> string list \<Rightarrow> shell" where
  "cmd_state sh args =
     (let (sh1, ok) = verify_state sh args in
      if \<not> ok then sh1
      else let sh2 = sh1\<lparr>DIR := Some (arg1 args)\<rparr> in sh2\<lparr>RETVAL := state_subst sh2\<rparr>)"

definition cmd_wait :: "shell \<Rightarrow> string list \<Rightarrow> shell" where
  "cmd_wait sh args =
     (let (sh1, ok) = verify_state sh args in
      if \<not> ok then sh1
      else let sh2 = sh1\<lparr>DIR := Some (arg1 args)\<rparr> in sh2\<lparr>RETVAL := state_subst sh2\<rparr>)"

definition cmd_result :: "shell \<Rightarrow> string list \<Rightarrow> shell" where
  "cmd_result sh args =
     (let (sh1, ok) = verify_state sh args in
      if \<not> ok then sh1
      else
        let sh2 = sh1\<lparr>DIR := Some (arg1 args)\<rparr>;
            state = state_subst sh2
        in if state \<noteq> ''DONE '' \<and> state \<noteq> ''FAILED '' \<and> state \<noteq> ''CANCELED ''
           then sh2\<lparr>ERROR := ''job '' @ arg1 args @ '' in incorrect state ('' @ state
                              @ '' != DONE|FAILED|CANCELED)''\<rparr>
           else
             let sh3 = (if file_of sh2 f_exit = None
                        then sh2\<lparr>ERROR := ''job '' @ arg1 args
                                        @ '' in incorrect state -- no exit code available''\<rparr>
                        else sh2)
             in sh3\<lparr>RETVAL := cat_subst (file_of sh3 f_exit)\<rparr>)"

text \<open>
  kill is the one command whose outcome the files do not determine.  The handlers take
  it as a parameter: given the signal and the text of \<^verbatim>\<open>$rpid\<close> it returns the exit
  status and the output (as the command substitution leaves it).
\<close>

type_synonym killer = "string \<Rightarrow> string \<Rightarrow> nat \<times> string"

definition cmd_suspend :: "killer \<Rightarrow> shell \<Rightarrow> string list \<Rightarrow> shell" where
  "cmd_suspend kill sh args =
     (let (sh1, ok1) = verify_state sh args in
      if \<not> ok1 then sh1
      else
        let (sh2, ok2) = verify_pid sh1 args in
        if \<not> ok2 then sh2
        else
          let sh3 = sh2\<lparr>DIR := Some (arg1 args)\<rparr>;
              state = state_subst sh3;
              rpid = cat_subst (file_of sh3 f_pid)
          in if state \<noteq> ''RUNNING ''
             then sh3\<lparr>ERROR := ''job '' @ arg1 args @ '' in incorrect state ('' @ state
                                @ '' != RUNNING)''\<rparr>
             else
               let sh4 = upd_dir sh3 (\<lambda>j. j\<lparr>m_suspended := True\<rparr>);
                   (ecode, out) = kill ''STOP'' rpid;
                   sh5 = sh4\<lparr>RETVAL := out\<rparr>
               in if string_of_nat ecode = ''0''
                  then
                    let sh6 = upd_dir sh5 (\<lambda>j. j\<lparr>f_state := echo_append (f_state j) ''SUSPENDED ''\<rparr>);
                        sh7 = upd_dir sh6 (\<lambda>j. j\<lparr>f_state_susp := echo_append None (state @ '' '')\<rparr>)
                    in sh7\<lparr>RETVAL := arg1 args @ '' suspended''\<rparr>
                  else
                    let sh6 = upd_dir sh5 (\<lambda>j. j\<lparr>m_suspended := False\<rparr>)
                    in sh6\<lparr>ERROR := ''suspend failed ('' @ string_of_nat ecode @ ''): '' @ out\<rparr>)"

text \<open>\<^verbatim>\<open>test -s\<close>: the file exists and is not empty; \<^verbatim>\<open>cat a >> b\<close> appends the bytes of a.\<close>

definition test_s :: "string option \<Rightarrow> bool" where
  "test_s f = (case f of None \<Rightarrow> False | Some c \<Rightarrow> c \<noteq> [])"

definition cat_append :: "string option \<Rightarrow> string option \<Rightarrow> string option" where
  "cat_append f src =
     Some ((case f of None \<Rightarrow> [] | Some c \<Rightarrow> c) @ (case src of None \<Rightarrow> [] | Some c \<Rightarrow> c))"

definition cmd_resume :: "killer \<Rightarrow> shell \<Rightarrow> string list \<Rightarrow> shell" where
  "cmd_resume kill sh args =
     (let (sh1, ok1) = verify_state sh args in
      if \<not> ok1 then sh1
      else
        let (sh2, ok2) = verify_pid sh1 args in
        if \<not> ok2 then sh2
        else
          let sh3 = sh2\<lparr>DIR := Some (arg1 args)\<rparr>;
              state = state_subst sh3;
              rpid = cat_subst (file_of sh3 f_pid)
          in if state \<noteq> ''SUSPENDED ''
             then sh3\<lparr>ERROR := ''job '' @ arg1 args @ '' in incorrect state ('' @ state
                                @ '' != SUSPENDED)''\<rparr>
             else
               let sh4 = upd_dir sh3 (\<lambda>j. j\<lparr>m_resumed := True\<rparr>);
                   (ecode, out) = kill ''CONT'' rpid;
                   sh5 = sh4\<lparr>RETVAL := out\<rparr>
               in if string_of_nat ecode = ''0''
                  then
                    let sh6 = upd_dir sh5 (\<lambda>j. if test_s (f_state_susp j) then j
                                 else j\<lparr>f_state_susp := echo_append None ''RUNNING ''\<rparr>);
                        sh7 = upd_dir sh6 (\<lambda>j. j\<lparr>f_state := cat_append (f_state j) (f_state_susp j)\<rparr>);
                        sh8 = upd_dir sh7 (\<lambda>j. j\<lparr>f_state_susp := None\<rparr>)
                    in sh8\<lparr>RETVAL := arg1 args @ '' resumed''\<rparr>
                  else
                    let sh6 = upd_dir sh5 (\<lambda>j. j\<lparr>m_resumed := False\<rparr>)
                    in sh6\<lparr>ERROR := ''resume failed ('' @ string_of_nat ecode @ ''): '' @ out\<rparr>)"

definition cmd_cancel :: "killer \<Rightarrow> shell \<Rightarrow> string list \<Rightarrow> shell" where
  "cmd_cancel kill sh args =
     (let (sh1, ok1) = verify_state sh args in
      if \<not> ok1 then sh1
      else
        let (sh2, ok2) = verify_pid sh1 args in
        if \<not> ok2 then sh2
        else
          let sh3 = sh2\<lparr>DIR := Some (arg1 args)\<rparr>;
              state = state_subst sh3;
              rpid = cat_subst (file_of sh3 f_pid)
          in if state \<noteq> ''SUSPENDED '' \<and> state \<noteq> ''RUNNING ''
             then sh3\<lparr>ERROR := ''job '' @ arg1 args @ '' in incorrect state ('' @ [CHR 0x27] @ state
                                @ [CHR 0x27] @ '' != '' @ [CHR 0x27] @ ''SUSPENDED|RUNNING''
                                @ [CHR 0x27] @ '')''\<rparr>
             else
               let sh4 = upd_dir sh3 (\<lambda>j. j\<lparr>m_canceled := True\<rparr>);
                   (ecode, out) = kill ''KILL'' rpid;
                   sh5 = sh4\<lparr>RETVAL := out\<rparr>
               in if string_of_nat ecode = ''0''
                  then sh5\<lparr>RETVAL := arg1 args @ '' canceled''\<rparr>
                  else
                    let sh6 = upd_dir sh5 (\<lambda>j. j\<lparr>m_canceled := False\<rparr>)
                    in sh6\<lparr>ERROR := ''cancel failed ('' @ string_of_nat ecode @ ''): '' @ out\<rparr>)"

text \<open>
  cmd_stdin shifts the job id away and runs \<^verbatim>\<open>echo "$*" >> "$DIR/in"\<close>: echo with one
  operand, the remaining parameters joined by single spaces; what echo writes is
  appended to the file in.  With no parameter at all (reachable when DIR still names a
  job of an earlier command) what shift does depends on the shell; the result is None,
  as it is where echo_text is None.
\<close>

definition cmd_stdin :: "shell \<Rightarrow> string list \<Rightarrow> shell option" where
  "cmd_stdin sh args =
     (let (sh1, ok) = verify_in sh args in
      if \<not> ok then Some sh1
      else
        let sh2 = sh1\<lparr>DIR := Some (arg1 args)\<rparr> in
        case args of
          [] \<Rightarrow> None
        | _ # rest \<Rightarrow>
            (case echo_text [join_sp rest] of
               None \<Rightarrow> None
             | Some out \<Rightarrow>
                 let sh3 = upd_dir sh2
                             (\<lambda>j. j\<lparr>f_in := Some ((case f_in j of None \<Rightarrow> [] | Some c \<Rightarrow> c) @ out)\<rparr>)
                 in Some (sh3\<lparr>RETVAL := ''stdin refreshed''\<rparr>)))"


subsection \<open>The monitor\<close>

text \<open>
  The monitor script of a job works on the job's directory only.  monitor_start is what
  it does before its loop, given the pid of the job it started; monitor_wait_returned is
  one pass of the loop body after \<^verbatim>\<open>wait\<close> returned with status retv: the directory
  afterwards, and whether the loop goes on (continue) or ends (break).  One pass is taken
  as atomic: no handler changes a marker between its tests.
\<close>

definition monitor_start :: "jobdir \<Rightarrow> nat \<Rightarrow> jobdir" where
  "monitor_start j rpid =
     (let j1 = j\<lparr>f_pid := echo_append None (string_of_nat rpid)\<rparr>
      in j1\<lparr>f_state := echo_append (f_state j1) ''RUNNING ''\<rparr>)"

definition monitor_wait_returned :: "jobdir \<Rightarrow> nat \<Rightarrow> jobdir \<times> bool" where
  "monitor_wait_returned j retv =
     (if m_suspended j then (j\<lparr>m_suspended := False\<rparr>, True)
      else if m_resumed j then (j\<lparr>m_resumed := False\<rparr>, True)
      else
        let j1 = j\<lparr>f_exit := echo_append None (string_of_nat retv)\<rparr>;
            j2 = (if string_of_nat retv = ''0''
                  then j1\<lparr>f_state := echo_append (f_state j1) ''DONE ''\<rparr> else j1);
            j3 = (if string_of_nat retv = ''0''
                  then j2 else j2\<lparr>f_state := echo_append (f_state j2) ''FAILED ''\<rparr>);
            j4 = (if m_canceled j3
                  then j3\<lparr>f_state := echo_append (f_state j3) ''CANCELED ''\<rparr> else j3);
            j5 = (if m_canceled j4 then j4\<lparr>m_canceled := False\<rparr> else j4)
        in (j5, False))"

subsection \<open>The command loop\<close>

text \<open>
  listen_step is one pass of the loop of listen for the line read: the shell afterwards
  and the reply printed before the prompt.  The verbs RUN, STDOUT, STDERR, LIST, PURGE,
  QUIT and LOG are outside the model: for them the result is None.  The unquoted
  \<^verbatim>\<open>$LINE\<close> and \<^verbatim>\<open>$args\<close> are split into fields; the pathname expansion that follows the
  splitting is not modelled, so the pass is that of the agent for plain lines.
\<close>

datatype reply = Reply_OK string | Reply_ERROR string | Reply_nothing

definition get_cmd :: "shell \<Rightarrow> string list \<Rightarrow> shell" where
  "get_cmd sh args = (if arg1 args = [] then sh\<lparr>RETVAL := ''NOOP''\<rparr> else sh\<lparr>RETVAL := arg1 args\<rparr>)"

definition get_args :: "shell \<Rightarrow> string list \<Rightarrow> shell" where
  "get_args sh args = (if arg1 args = [] then sh\<lparr>RETVAL := []\<rparr> else sh\<lparr>RETVAL := join_sp (tl args)\<rparr>)"

definition unmodelled_verbs :: "string list" where
  "unmodelled_verbs = [''RUN'', ''STDOUT'', ''STDERR'', ''LIST'', ''PURGE'', ''QUIT'', ''LOG'']"

definition dispatch :: "killer \<Rightarrow> shell \<Rightarrow> string \<Rightarrow> string \<Rightarrow> string \<Rightarrow> shell option" where
  "dispatch kill sh cmd args LINE =
     (if cmd \<in> set unmodelled_verbs then None
      else if cmd = ''SUSPEND'' then Some (cmd_suspend kill sh (split_IFS args))
      else if cmd = ''RESUME'' then Some (cmd_resume kill sh (split_IFS args))
      else if cmd = ''CANCEL'' then Some (cmd_cancel kill sh (split_IFS args))
      else if cmd = ''RESULT'' then Some (cmd_result sh (split_IFS args))
      else if cmd = ''STATE'' then Some (cmd_state sh (split_IFS args))
      else if cmd = ''WAIT'' then Some (cmd_wait sh (split_IFS args))
      else if cmd = ''STDIN'' then cmd_stdin sh (split_IFS args)
      else if cmd = ''NOOP'' then Some (sh\<lparr>ERROR := ''NOOP''\<rparr>)
      else Some (sh\<lparr>ERROR := cmd @ '' unknown ('' @ LINE @ '')''\<rparr>))"

definition reply_of :: "shell \<Rightarrow> reply" where
  "reply_of sh =
     (if ERROR sh = ''OK'' then Reply_OK (RETVAL sh)
      else if ERROR sh = ''NOOP'' then Reply_nothing
      else Reply_ERROR (ERROR sh))"

definition listen_step :: "killer \<Rightarrow> shell \<Rightarrow> string \<Rightarrow> (shell \<times> reply) option" where
  "listen_step kill sh line =
     (let LINE = read_LINE line;
          sh0 = sh\<lparr>ERROR := ''OK'', RETVAL := []\<rparr>;
          sh1 = get_cmd sh0 (split_IFS LINE);
          cmd = RETVAL sh1;
          sh2 = get_args sh1 (split_IFS LINE);
          args = RETVAL sh2
      in if ERROR sh2 \<noteq> ''OK'' then Some (sh2, Reply_ERROR (ERROR sh2))
         else map_option (\<lambda>s. (s, reply_of s)) (dispatch kill sh2 cmd args LINE))"

text \<open>The loop itself, over the lines read; it stops with None at a verb outside the model.\<close>

fun listen_loop :: "killer \<Rightarrow> shell \<Rightarrow> string list \<Rightarrow> (shell \<times> reply list) option" where
  "listen_loop kill sh [] = Some (sh, [])"
| "listen_loop kill sh (l # ls) =
     (case listen_step kill sh l of
        None \<Rightarrow> None
      | Some (sh1, r) \<Rightarrow> map_option (\<lambda>(s, rs). (s, r # rs)) (listen_loop kill sh1 ls))"

text \<open>What a client sees of one step: the reply, and the directories afterwards.\<close>

definition reply_to :: "killer \<Rightarrow> shell \<Rightarrow> string \<Rightarrow> reply option" where
  "reply_to kill sh line = map_option snd (listen_step kill sh line)"

definition base_after :: "killer \<Rightarrow> shell \<Rightarrow> string \<Rightarrow> basedir option" where
  "base_after kill sh line = map_option (BASE \<circ> fst) (listen_step kill sh line)"

definition dir_after :: "killer \<Rightarrow> shell \<Rightarrow> string \<Rightarrow> string \<Rightarrow> jobdir option" where
  "dir_after kill sh line d = (case base_after kill sh line of None \<Rightarrow> None | Some b \<Rightarrow> b d)"



section \<open>The task layer\<close>

text \<open>
  \<^verbatim>\<open>task.py\<close>: Task and Container.  Objects are told apart by an identity (a number);
  a Python value that the code only passes on is an identity too.  SagaThread and the
  adaptors are not part of the sources at hand: every call that leaves \<^verbatim>\<open>task.py\<close> is
  recorded, in order, with its arguments, and what a collaborator reports back (the
  state of a thread after its wait, the state of a worker after a join) is a parameter.
  Dictionaries are association lists in insertion order.
\<close>

datatype tstate = UNKNOWN | NEW | RUNNING | DONE | FAILED | CANCELED

datatype wait_mode = Wait_ANY | Wait_ALL

type_synonym pyobj = nat

record task =
  tid :: pyobj
  t_state :: tstate
  t_result :: "pyobj option"
  t_exception :: "pyobj option"
  t_thread :: bool
  t_container :: "pyobj option"
  t_method_type :: string

text \<open>
  t_thread: whether \<^verbatim>\<open>self._thread\<close> is set.  t_container: \<^verbatim>\<open>self._adaptor._container\<close>, None
  when the adaptor is missing or has no container.
\<close>

datatype call =
    Thread_run pyobj
  | Thread_wait pyobj
  | Adaptor_task_run pyobj
  | Adaptor_task_wait pyobj real
  | Container_wait_call pyobj "pyobj list" wait_mode real

datatype pyerror =
    AttributeError string string
  | BadParameter string
  | IndexError
  | Raised pyobj

datatype pyval = PyNone | PyBool bool | PyBoundMethod string | PyTask pyobj | PyObject pyobj

text \<open>Python's truth value: None and False are false, a bound method is an object and true.\<close>

fun truthy :: "pyval \<Rightarrow> bool" where
  "truthy PyNone = False"
| "truthy (PyBool b) = b"
| "truthy (PyBoundMethod n) = True"
| "truthy (PyTask t) = True"
| "truthy (PyObject v) = True"

subsection \<open>Task\<close>

text \<open>Task.run: the task afterwards and the calls made.  There is no test of the state.\<close>

definition Task_run :: "task \<Rightarrow> task \<times> call list" where
  "Task_run t = (if t_thread t then (t, [Thread_run (tid t)]) else (t, [Adaptor_task_run (tid t)]))"

text \<open>Task.wait; th gives the state of a task's thread once its wait has returned.\<close>

definition Task_wait :: "(pyobj \<Rightarrow> tstate) \<Rightarrow> task \<Rightarrow> real option \<Rightarrow> task \<times> call list" where
  "Task_wait th t timeout =
     (let timeout1 = (case timeout of None \<Rightarrow> - 1.0 | Some x \<Rightarrow> x)
      in if t_thread t then (t\<lparr>t_state := th (tid t)\<rparr>, [Thread_wait (tid t)])
         else (t, [Adaptor_task_wait (tid t) timeout1]))"

subsection \<open>Container\<close>

record container =
  tasks :: "task list"

definition task_in :: "task \<Rightarrow> task list \<Rightarrow> bool" where
  "task_in t ts = (tid t \<in> set (map tid ts))"

definition Container_add :: "container \<Rightarrow> task \<Rightarrow> pyerror + container" where
  "Container_add c t = (if \<not> task_in t (tasks c) then Inr (c\<lparr>tasks := tasks c @ [t]\<rparr>) else Inr c)"

text \<open>Container.remove calls \<^verbatim>\<open>self.tasks.delete (task)\<close>; a Python list has no attribute
  delete, so the call raises AttributeError before anything is removed.\<close>

definition Container_remove :: "container \<Rightarrow> task \<Rightarrow> pyerror + container" where
  "Container_remove c t =
     (if task_in t (tasks c) then Inl (AttributeError ''list'' ''delete'') else Inr c)"

definition get_size :: "container \<Rightarrow> nat" where
  "get_size c = length (tasks c)"

definition get_tasks :: "container \<Rightarrow> task list" where
  "get_tasks c = tasks c"

text \<open>The standard remove-by-value of a list, which the specification asks for.\<close>

fun list_remove :: "task \<Rightarrow> task list \<Rightarrow> task list" where
  "list_remove t [] = []"
| "list_remove t (u # us) = (if tid u = tid t then us else u # list_remove t us)"

record buckets =
  bound :: "(pyobj \<times> (string \<times> task list) list) list"
  unbound :: "task list"

fun method_insert :: "(string \<times> task list) list \<Rightarrow> string \<Rightarrow> task \<Rightarrow> (string \<times> task list) list" where
  "method_insert [] m t = [(m, [t])]"
| "method_insert ((m1, ts) # ms) m t =
     (if m1 = m then (m1, ts @ [t]) # ms else (m1, ts) # method_insert ms m t)"

fun bound_insert ::
  "(pyobj \<times> (string \<times> task list) list) list \<Rightarrow> pyobj \<Rightarrow> string \<Rightarrow> task
     \<Rightarrow> (pyobj \<times> (string \<times> task list) list) list" where
  "bound_insert [] c m t = [(c, [(m, [t])])]"
| "bound_insert ((c1, ms) # cs) c m t =
     (if c1 = c then (c1, method_insert ms m t) # cs else (c1, ms) # bound_insert cs c m t)"

fun get_buckets_loop :: "task list \<Rightarrow> buckets \<Rightarrow> buckets" where
  "get_buckets_loop [] b = b"
| "get_buckets_loop (t # ts) b =
     (case t_container t of
        Some c \<Rightarrow> get_buckets_loop ts (b\<lparr>bound := bound_insert (bound b) c (t_method_type t) t\<rparr>)
      | None \<Rightarrow> get_buckets_loop ts (b\<lparr>unbound := unbound b @ [t]\<rparr>))"

definition get_buckets :: "container \<Rightarrow> buckets" where
  "get_buckets c = get_buckets_loop (tasks c) \<lparr>bound = [], unbound = []\<rparr>"

text \<open>The tasks of one bound container, over all its methods.\<close>

definition bucket_tasks :: "(string \<times> task list) list \<Rightarrow> task list" where
  "bucket_tasks ms = concat (map snd ms)"

text \<open>
  wait_all: for each bound container one call of container_wait with the timeout, then
  for each unbound task \<^verbatim>\<open>task.wait ()\<close>, with no argument.  The result is the unbound
  tasks afterwards, the calls, and the value returned (\<^verbatim>\<open>tasks[0]\<close> of an empty list
  raises IndexError).
\<close>

fun wait_all_bound ::
  "(pyobj \<times> (string \<times> task list) list) list \<Rightarrow> real \<Rightarrow> pyval \<Rightarrow> call list \<times> (pyerror + pyval)" where
  "wait_all_bound [] timeout ret = ([], Inr ret)"
| "wait_all_bound ((c, ms) # cs) timeout ret =
     (let ts = bucket_tasks ms;
          this = Container_wait_call c (map tid ts) Wait_ALL timeout
      in case ts of
           [] \<Rightarrow> ([this], Inl IndexError)
         | t # _ \<Rightarrow> (let (calls, r) = wait_all_bound cs timeout (PyTask (tid t))
                     in (this # calls, r)))"

fun wait_all_unbound :: "(pyobj \<Rightarrow> tstate) \<Rightarrow> task list \<Rightarrow> pyval \<Rightarrow> task list \<times> call list \<times> pyval" where
  "wait_all_unbound th [] ret = ([], [], ret)"
| "wait_all_unbound th (t # ts) ret =
     (let (t1, calls1) = Task_wait th t None;
          (ts1, calls2, ret1) = wait_all_unbound th ts (PyTask (tid t))
      in (t1 # ts1, calls1 @ calls2, ret1))"

definition Container_wait_all ::
  "(pyobj \<Rightarrow> tstate) \<Rightarrow> container \<Rightarrow> real \<Rightarrow> task list \<times> call list \<times> (pyerror + pyval)" where
  "Container_wait_all th c timeout =
     (let b = get_buckets c;
          (calls1, r1) = wait_all_bound (bound b) timeout PyNone
      in case r1 of
           Inl e \<Rightarrow> (unbound b, calls1, Inl e)
         | Inr ret1 \<Rightarrow> (let (ts, calls2, ret2) = wait_all_unbound th (unbound b) ret1
                        in (ts, calls1 @ calls2, Inr ret2)))"

text \<open>
  wait_any starts one worker thread per bound container and per unbound task; a worker is
  given by the calls it makes.  Then it polls the workers once, in order, each with a
  join of 0.01 seconds.  What a worker looks like after its join is a parameter.
\<close>

record worker_obs =
  w_state :: tstate
  w_alive :: bool
  w_result :: pyval
  w_exception :: pyobj

definition wait_any_workers :: "(pyobj \<Rightarrow> tstate) \<Rightarrow> container \<Rightarrow> real \<Rightarrow> call list list" where
  "wait_any_workers th c timeout =
     (let b = get_buckets c
      in map (\<lambda>(cid, ms). [Container_wait_call cid (map tid (bucket_tasks ms)) Wait_ANY timeout]) (bound b)
         @ map (\<lambda>t. snd (Task_wait th t (Some timeout))) (unbound b))"

text \<open>\<^verbatim>\<open>thread.isAlive\<close>, the attribute, is the bound method; \<^verbatim>\<open>thread.isAlive ()\<close> is
  its result.\<close>

definition isAlive_attribute :: "worker_obs \<Rightarrow> pyval" where
  "isAlive_attribute w = PyBoundMethod ''isAlive''"

definition isAlive_called :: "worker_obs \<Rightarrow> pyval" where
  "isAlive_called w = PyBool (w_alive w)"

fun wait_any_poll :: "worker_obs list \<Rightarrow> real list \<times> (pyerror + pyval)" where
  "wait_any_poll [] = ([], Inr PyNone)"
| "wait_any_poll (w # ws) =
     (if w_state w = FAILED then ([0.01], Inl (Raised (w_exception w)))
      else if \<not> truthy (isAlive_attribute w) then ([0.01], Inr (w_result w))
      else (let (joins, r) = wait_any_poll ws in (0.01 # joins, r)))"

definition Container_wait_any ::
  "(pyobj \<Rightarrow> tstate) \<Rightarrow> (nat \<Rightarrow> worker_obs) \<Rightarrow> container \<Rightarrow> real
     \<Rightarrow> call list list \<times> real list \<times> (pyerror + pyval)" where
  "Container_wait_any th obs c timeout =
     (let workers = wait_any_workers th c timeout;
          (joins, r) = wait_any_poll (map obs [0 ..< length workers])
      in (workers, joins, r))"

text \<open>Container.wait: the default timeout, the empty container, and the two modes.  The
  result keeps the calls of the call itself or of the workers it started.\<close>

datatype wait_report =
    Waited_all "task list" "call list"
  | Waited_any "call list list" "real list"
  | Waited_nothing

definition Container_wait ::
  "(pyobj \<Rightarrow> tstate) \<Rightarrow> (nat \<Rightarrow> worker_obs) \<Rightarrow> container \<Rightarrow> wait_mode \<Rightarrow> real option
     \<Rightarrow> wait_report \<times> (pyerror + pyval)" where
  "Container_wait th obs c mode timeout =
     (let timeout1 = (case timeout of None \<Rightarrow> - 1.0 | Some x \<Rightarrow> x)
      in if length (tasks c) = 0 then (Waited_nothing, Inr PyNone)
         else if mode = Wait_ALL
         then (let (ts, calls, ret) = Container_wait_all th c timeout1
               in (Waited_all ts calls, ret))
         else (let (workers, joins, r) = Container_wait_any th obs c timeout1
               in (Waited_any workers joins, r)))"

section \<open>Example inputs\<close>

text \<open>A running job 42 with process 4711, as RUN and the monitor leave it; the same job
  with the canceled marker of an earlier CANCEL; kill succeeding and kill failing.\<close>

definition example_job :: jobdir where
  "example_job =
     \<lparr>f_cmd = Some (''sleep 5'' @ [NL]), f_in = Some [], f_pid = Some (''4711'' @ [NL]),
      f_state = Some (''NEW '' @ [NL] @ ''RUNNING '' @ [NL]), f_exit = None,
      f_state_susp = None, m_suspended = False, m_resumed = False, m_canceled = False\<rparr>"

definition example_shell :: shell where
  "example_shell = \<lparr>ERROR = [], RETVAL = [], DIR = None, BASE = [''42'' \<mapsto> example_job]\<rparr>"

definition marked_shell :: shell where
  "marked_shell =
     \<lparr>ERROR = [], RETVAL = [], DIR = None, BASE = [''42'' \<mapsto> example_job\<lparr>m_canceled := True\<rparr>]\<rparr>"

definition finished_job :: jobdir where
  "finished_job = fst (monitor_wait_returned example_job 7)"

definition finished_shell :: shell where
  "finished_shell = \<lparr>ERROR = [], RETVAL = [], DIR = None, BASE = [''42'' \<mapsto> finished_job]\<rparr>"

definition kill_succeeds :: killer where
  "kill_succeeds sig rpid = (0, [])"

definition kill_fails :: killer where
  "kill_fails sig rpid = (1, ''kill: No such process'')"

text \<open>A task of an adaptor without container (so unbound), one bound to container 9, and
  a worker that has finished with a result.\<close>

definition example_task :: task where
  "example_task =
     \<lparr>tid = 1, t_state = RUNNING, t_result = None, t_exception = None, t_thread = False,
      t_container = None, t_method_type = ''run''\<rparr>"

definition bound_task :: task where
  "bound_task =
     \<lparr>tid = 2, t_state = RUNNING, t_result = None, t_exception = None, t_thread = False,
      t_container = Some 9, t_method_type = ''run''\<rparr>"

definition example_container :: container where
  "example_container = \<lparr>tasks = [example_task]\<rparr>"

definition mixed_container :: container where
  "mixed_container = \<lparr>tasks = [bound_task, example_task]\<rparr>"

definition finished_worker :: worker_obs where
  "finished_worker = \<lparr>w_state = DONE, w_alive = False, w_result = PyTask 1, w_exception = 0\<rparr>"

text \<open>Collaborators that report every thread as DONE and every worker as finished.\<close>

definition threads_done :: "pyobj \<Rightarrow> tstate" where
  "threads_done t = DONE"

definition workers_finished :: "nat \<Rightarrow> worker_obs" where
  "workers_finished n = finished_worker"

section \<open>Auxiliary facts\<close>

subsection \<open>Decimal numerals\<close>

lemma digit_char_props:
  assumes "d < 10"
  shows "is_digit (digit_char d)" "of_char (digit_char d) - 48 = d" "digit_char d \<noteq> NL"
    "(digit_char d = CHR ''0'') = (d = 0)"
proof -
  have "d = 0 \<or> d = 1 \<or> d = 2 \<or> d = 3 \<or> d = 4 \<or> d = 5 \<or> d = 6 \<or> d = 7 \<or> d = 8 \<or> d = 9"
    using assms by arith
  then show "is_digit (digit_char d)" "of_char (digit_char d) - 48 = d" "digit_char d \<noteq> NL"
    "(digit_char d = CHR ''0'') = (d = 0)"
    by (auto simp: is_digit_def digit_char_def NL_def)
qed

lemma string_of_nat_nonempty: "string_of_nat n \<noteq> []"
  by (subst string_of_nat.simps) simp

lemma string_of_nat_zero_iff: "(string_of_nat n = ''0'') = (n = 0)"
proof (cases "n < 10")
  case True
  then show ?thesis
    by (subst string_of_nat.simps) (simp add: digit_char_props)
next
  case False
  then have "string_of_nat n = string_of_nat (n div 10) @ [digit_char (n mod 10)]"
    by (subst string_of_nat.simps) simp
  moreover have "string_of_nat (n div 10) \<noteq> []" by (rule string_of_nat_nonempty)
  ultimately show ?thesis using False by (auto simp: append_eq_Cons_conv)
qed

lemma nat_of_digits_append:
  "nat_of_digits acc (xs @ ys) = (case nat_of_digits acc xs of None \<Rightarrow> None | Some a \<Rightarrow> nat_of_digits a ys)"
  by (induction xs arbitrary: acc) auto

lemma nat_of_digits_string_of_nat: "nat_of_digits 0 (string_of_nat n) = Some n"
proof (induction n rule: string_of_nat.induct)
  case (1 n)
  show ?case
  proof (cases "n < 10")
    case True
    then show ?thesis by (subst string_of_nat.simps) (simp add: digit_char_props)
  next
    case False
    then have "nat_of_digits 0 (string_of_nat (n div 10)) = Some (n div 10)" using 1 by simp
    with False show ?thesis
      by (subst string_of_nat.simps) (simp add: nat_of_digits_append digit_char_props)
  qed
qed

lemma nat_of_string_string_of_nat: "nat_of_string (string_of_nat n) = Some n"
  by (simp add: nat_of_string_def string_of_nat_nonempty nat_of_digits_string_of_nat)

lemma string_of_nat_no_NL: "NL \<notin> set (string_of_nat n)"
proof (induction n rule: string_of_nat.induct)
  case (1 n)
  show ?case
  proof (cases "n < 10")
    case True
    then show ?thesis using digit_char_props(3)[of n] by (subst string_of_nat.simps) auto
  next
    case False
    then show ?thesis using 1 digit_char_props(3)[of "n mod 10"]
      by (subst string_of_nat.simps) auto
  qed
qed

lemma cmdsubst_line: "s \<noteq> [] \<Longrightarrow> last s \<noteq> NL \<Longrightarrow> cmdsubst (s @ [NL]) = s"
  by (cases s rule: rev_cases) (auto simp: cmdsubst_def)

lemma cmdsubst_string_of_nat: "cmdsubst (string_of_nat n @ [NL]) = string_of_nat n"
  using string_of_nat_no_NL[of n] string_of_nat_nonempty[of n]
  by (intro cmdsubst_line) (auto dest: last_in_set)

subsection \<open>Field splitting and the command line\<close>

lemma split_fields_token:
  "\<not> list_ex is_ifs t \<Longrightarrow> split_fields acc (t @ r) = split_fields (acc @ t) r"
  by (induction t arbitrary: acc) auto

lemma split_IFS_token: "token t \<Longrightarrow> split_IFS t = [t]"
  using split_fields_token[of t "[]" "[]"] by (simp add: split_IFS_def token_def)

lemma split_IFS_join_sp: "list_all token ts \<Longrightarrow> split_IFS (join_sp ts) = ts"
proof (induction ts rule: join_sp.induct)
  case 1
  then show ?case by (simp add: split_IFS_def)
next
  case (2 t)
  then show ?case by (simp add: split_IFS_token)
next
  case (3 t u us)
  then have t: "t \<noteq> []" "\<not> list_ex is_ifs t" by (simp_all add: token_def)
  have "split_IFS (join_sp (t # u # us)) = split_fields t (SP # join_sp (u # us))"
    using split_fields_token[OF t(2), of "[]"] by (simp add: split_IFS_def)
  also have "\<dots> = t # split_IFS (join_sp (u # us))"
    using t(1) by (simp add: split_IFS_def is_ifs_def)
  finally show ?case using 3 by simp
qed

lemma split_fields_tokens:
  "\<not> list_ex is_ifs acc \<Longrightarrow> list_all token (split_fields acc s)"
  by (induction s arbitrary: acc) (auto simp: token_def)

lemma split_IFS_tokens: "list_all token (split_IFS s)"
  by (simp add: split_IFS_def split_fields_tokens)

lemma split_fields_leading: "split_fields [] (dropWhile is_ifs s) = split_fields [] s"
  by (induction s) auto

lemma split_fields_only_ifs:
  "list_all is_ifs w \<Longrightarrow> split_fields acc w = (if acc = [] then [] else [acc])"
  by (induction w arbitrary: acc) auto

lemma split_fields_trailing:
  "list_all is_ifs w \<Longrightarrow> split_fields acc (s @ w) = split_fields acc s"
  by (induction s arbitrary: acc) (auto simp: split_fields_only_ifs)

lemma split_IFS_read_LINE: "split_IFS (read_LINE s) = split_IFS s"
proof -
  define s1 where "s1 = dropWhile is_ifs s"
  define w where "w = rev (takeWhile is_ifs (rev s1))"
  have "s1 = read_LINE s @ w"
    unfolding read_LINE_def w_def s1_def
    by (metis rev_append rev_rev_ident takeWhile_dropWhile_id)
  moreover have "list_all is_ifs w"
    unfolding w_def by (simp add: list_all_iff) (meson set_takeWhileD)
  ultimately have "split_fields [] s1 = split_fields [] (read_LINE s)"
    by (simp add: split_fields_trailing)
  then show ?thesis by (simp add: split_IFS_def s1_def split_fields_leading)
qed

lemma split_IFS_args:
  assumes "split_IFS line = verb # args"
  shows "token verb" "list_all token args" "split_IFS (join_sp args) = args"
proof -
  have "list_all token (verb # args)" using split_IFS_tokens[of line] assms by simp
  then show "token verb" "list_all token args" by simp_all
  then show "split_IFS (join_sp args) = args" by (simp add: split_IFS_join_sp)
qed

lemma listen_step_parsed:
  assumes "split_IFS line = verb # args"
  shows "listen_step kill sh line =
     map_option (\<lambda>s. (s, reply_of s))
       (dispatch kill (sh\<lparr>ERROR := ''OK'', RETVAL := join_sp args\<rparr>) verb (join_sp args) (read_LINE line))"
proof -
  have "verb \<noteq> []" using split_IFS_args(1)[OF assms] by (simp add: token_def)
  then show ?thesis
    using assms
    by (simp add: listen_step_def Let_def split_IFS_read_LINE get_cmd_def get_args_def arg1_def)
qed

subsection \<open>Lines of the state log\<close>

lemma split_lines_line: "NL \<notin> set l \<Longrightarrow> split_lines acc (l @ [NL]) = [acc @ l]"
  by (induction l arbitrary: acc) auto

lemma split_lines_cut:
  "split_lines acc (x @ NL # y) = split_lines acc (x @ [NL]) @ split_lines [] y"
  by (induction x arbitrary: acc) auto

lemma last_state_line_alt:
  "last_state_line c = (if grep_sp_eol c = [] then [] else last (grep_sp_eol c))"
  by (simp add: last_state_line_def split: list.splits)

lemma last_state_line_after_NL:
  assumes "NL \<notin> set l" "l \<noteq> []" "last l = SP"
  shows "last_state_line (x @ NL # l @ [NL]) = l"
proof -
  have "split_lines [] (x @ NL # l @ [NL]) = split_lines [] (x @ [NL]) @ [l]"
    using split_lines_cut[of "[]" x "l @ [NL]"] split_lines_line[OF assms(1), of "[]"] by simp
  then show ?thesis
    using assms by (simp add: last_state_line_alt grep_sp_eol_def)
qed

lemma grep_suffix:
  assumes "NL \<notin> set l" "l \<noteq> []" "last l = SP"
  shows "\<exists>p. filter (\<lambda>l. l \<noteq> [] \<and> last l = SP) (split_lines acc (x @ l @ [NL])) \<noteq> []
           \<and> last (filter (\<lambda>l. l \<noteq> [] \<and> last l = SP) (split_lines acc (x @ l @ [NL]))) = p @ l"
proof (induction x arbitrary: acc)
  case Nil
  show ?case using assms by (simp add: split_lines_line)
next
  case (Cons c x)
  show ?case
  proof (cases "c = NL")
    case True
    from Cons[of "[]"] obtain p where
      "filter (\<lambda>l. l \<noteq> [] \<and> last l = SP) (split_lines [] (x @ l @ [NL])) \<noteq> []"
      "last (filter (\<lambda>l. l \<noteq> [] \<and> last l = SP) (split_lines [] (x @ l @ [NL]))) = p @ l"
      by blast
    with True show ?thesis by auto
  next
    case False
    with Cons[of "acc @ [c]"] show ?thesis by simp
  qed
qed

lemma last_state_line_suffix:
  assumes "NL \<notin> set l" "l \<noteq> []" "last l = SP"
  shows "\<exists>p. last_state_line (x @ l @ [NL]) = p @ l"
proof -
  from grep_suffix[OF assms, of "[]" x] obtain p where
    "grep_sp_eol (x @ l @ [NL]) \<noteq> []" "last (grep_sp_eol (x @ l @ [NL])) = p @ l"
    unfolding grep_sp_eol_def by blast
  then show ?thesis by (auto simp: last_state_line_alt)
qed

subsection \<open>State tokens at the end of the log\<close>

lemma no_suffix1: "p @ ''FAILED '' \<noteq> ''DONE ''" 
proof
  assume "p @ ''FAILED '' = ''DONE ''"
  then have "length (p @ ''FAILED '') = length ''DONE ''" by (rule arg_cong)
  then show False by simp
qed

lemma no_suffix2: "p @ ''CANCELED '' \<noteq> ''DONE ''" 
proof
  assume "p @ ''CANCELED '' = ''DONE ''"
  then have "length (p @ ''CANCELED '') = length ''DONE ''" by (rule arg_cong)
  then show False by simp
qed

lemma no_suffix3: "p @ ''CANCELED '' \<noteq> ''FAILED ''" 
proof
  assume "p @ ''CANCELED '' = ''FAILED ''"
  then have "length (p @ ''CANCELED '') = length ''FAILED ''" by (rule arg_cong)
  then show False by simp
qed

lemma no_suffix4: "p @ ''DONE '' \<noteq> ''FAILED ''" 
proof
  assume a: "p @ ''DONE '' = ''FAILED ''"
  then have "drop (length p) (p @ ''DONE '') = drop (length p) ''FAILED ''" by simp
  moreover from a have "length (p @ ''DONE '') = length ''FAILED ''" by (rule arg_cong)
  then have "length p = 2" by simp
  ultimately show False by simp
qed


lemma token_lines:
  "NL \<notin> set ''DONE ''" "NL \<notin> set ''FAILED ''" "NL \<notin> set ''CANCELED ''"
  "last ''DONE '' = SP" "last ''FAILED '' = SP" "last ''CANCELED '' = SP"
  by (simp_all add: NL_def SP_def)

lemma state_after_FAILED: "last_state_line (x @ ''FAILED '' @ [NL]) \<noteq> ''DONE ''"
proof -
  obtain p where "last_state_line (x @ ''FAILED '' @ [NL]) = p @ ''FAILED ''"
    using last_state_line_suffix[of "''FAILED ''" x] token_lines by auto
  then show ?thesis using no_suffix1[of p] by simp
qed

lemma state_after_DONE: "last_state_line (x @ ''DONE '' @ [NL]) \<noteq> ''FAILED ''"
proof -
  obtain p where "last_state_line (x @ ''DONE '' @ [NL]) = p @ ''DONE ''"
    using last_state_line_suffix[of "''DONE ''" x] token_lines by auto
  then show ?thesis using no_suffix4[of p] by simp
qed

lemma state_after_CANCELED:
  "last_state_line (x @ ''CANCELED '' @ [NL]) \<noteq> ''DONE ''"
  "last_state_line (x @ ''CANCELED '' @ [NL]) \<noteq> ''FAILED ''"
proof -
  obtain p where p: "last_state_line (x @ ''CANCELED '' @ [NL]) = p @ ''CANCELED ''"
    using last_state_line_suffix[of "''CANCELED ''" x] token_lines by auto
  show "last_state_line (x @ ''CANCELED '' @ [NL]) \<noteq> ''DONE ''"
    using p no_suffix2[of p] by simp
  show "last_state_line (x @ ''CANCELED '' @ [NL]) \<noteq> ''FAILED ''"
    using p no_suffix3[of p] by simp
qed

subsection \<open>The last pass of the monitor\<close>

lemma monitor_wait_returned_eq:
  assumes "\<not> m_suspended j" and "\<not> m_resumed j"
  shows "monitor_wait_returned j retv =
           (j\<lparr>f_exit := Some (string_of_nat retv @ [NL]),
              f_state := Some ((case f_state j of None \<Rightarrow> [] | Some c \<Rightarrow> c)
                               @ (if retv = 0 then ''DONE '' else ''FAILED '') @ [NL]
                               @ (if m_canceled j then ''CANCELED '' @ [NL] else [])),
              m_canceled := False\<rparr>, False)"
  using assms
  by (simp add: monitor_wait_returned_def Let_def string_of_nat_zero_iff echo_append_def)

lemma job_state_after_token:
  assumes "f_state j1 = Some (old @ tok @ [NL] @ (if c then ''CANCELED '' @ [NL] else []))"
    and "\<And>x. last_state_line (x @ tok @ [NL]) \<noteq> other"
    and "other = ''DONE '' \<or> other = ''FAILED ''"
  shows "job_state j1 \<noteq> other"
proof (cases c)
  case True
  have "job_state j1 = last_state_line ((old @ tok @ [NL]) @ ''CANCELED '' @ [NL])"
    using assms(1) True by (simp only: job_state_def option.case if_True append_assoc)
  then show ?thesis
    using state_after_CANCELED[of "old @ tok @ [NL]"] assms(3) by auto
next
  case False
  have "job_state j1 = last_state_line (old @ tok @ [NL])"
    using assms(1) False by (simp only: job_state_def option.case if_False append_Nil2)
  then show ?thesis using assms(2)[of old] by simp
qed

lemma job_state_after_monitor:
  assumes "f_state j1 = Some (old @ (if retv = (0::nat) then ''DONE '' else ''FAILED '') @ [NL]
                               @ (if c then ''CANCELED '' @ [NL] else []))"
  shows "(job_state j1 = ''DONE '' \<longrightarrow> retv = 0) \<and> (job_state j1 = ''FAILED '' \<longrightarrow> retv \<noteq> 0)"
proof (cases "retv = 0")
  case True
  then have "f_state j1 = Some (old @ ''DONE '' @ [NL] @ (if c then ''CANCELED '' @ [NL] else []))"
    using assms by (simp only: if_True simp_thms)
  from job_state_after_token[OF this, of "''FAILED ''"] state_after_DONE True
  show ?thesis by simp
next
  case False
  then have "f_state j1 = Some (old @ ''FAILED '' @ [NL] @ (if c then ''CANCELED '' @ [NL] else []))"
    using assms by (simp only: if_False simp_thms)
  from job_state_after_token[OF this, of "''DONE ''"] state_after_FAILED False
  show ?thesis by simp
qed

subsection \<open>The handlers on a valid record\<close>

lemmas handler_defs = verify_dir_def verify_state_def verify_pid_def verify_in_def
  the_dir_def file_of_def upd_dir_def state_subst_def job_state_def arg1_def Let_def

lemma dispatch_one_arg:
  assumes "split_IFS line = [verb, jid]"
  shows "jid \<noteq> []" "split_IFS (join_sp [jid]) = [jid]"
    "listen_step kill sh line =
       map_option (\<lambda>s. (s, reply_of s))
         (dispatch kill (sh\<lparr>ERROR := ''OK'', RETVAL := jid\<rparr>) verb jid (read_LINE line))"
proof -
  from split_IFS_args[OF assms] show "jid \<noteq> []" "split_IFS (join_sp [jid]) = [jid]"
    by (simp_all add: token_def)
  from listen_step_parsed[OF assms, of kill sh] show "listen_step kill sh line =
       map_option (\<lambda>s. (s, reply_of s))
         (dispatch kill (sh\<lparr>ERROR := ''OK'', RETVAL := jid\<rparr>) verb jid (read_LINE line))"
    by simp
qed

lemma cmd_result_valid:
  assumes "jid \<noteq> []" "BASE sh jid = Some j" "f_state j = Some st" "ERROR sh = ''OK''"
  shows "reply_of (cmd_result sh [jid]) =
           (if job_state j = ''DONE '' \<or> job_state j = ''FAILED '' \<or> job_state j = ''CANCELED ''
            then (case f_exit j of
                    Some e \<Rightarrow> Reply_OK (cmdsubst e)
                  | None \<Rightarrow> Reply_ERROR (''job '' @ jid @ '' in incorrect state -- no exit code available''))
            else Reply_ERROR (''job '' @ jid @ '' in incorrect state ('' @ job_state j
                                @ '' != DONE|FAILED|CANCELED)''))"
    and "BASE (cmd_result sh [jid]) = BASE sh"
  using assms
  by (auto simp: cmd_result_def handler_defs reply_of_def cat_subst_def split: option.splits)


lemma cmd_cancel_valid:
  assumes "jid \<noteq> []" "BASE sh jid = Some j" "f_state j = Some st" "f_pid j = Some p"
    "ERROR sh = ''OK''"
  shows "reply_of (cmd_cancel kill sh [jid]) =
           (if job_state j \<noteq> ''SUSPENDED '' \<and> job_state j \<noteq> ''RUNNING ''
            then Reply_ERROR (''job '' @ jid @ '' in incorrect state ('' @ [CHR 0x27] @ job_state j
                                @ [CHR 0x27] @ '' != '' @ [CHR 0x27] @ ''SUSPENDED|RUNNING''
                                @ [CHR 0x27] @ '')'')
            else if fst (kill ''KILL'' (cmdsubst p)) = 0 then Reply_OK (jid @ '' canceled'')
            else Reply_ERROR (''cancel failed ('' @ string_of_nat (fst (kill ''KILL'' (cmdsubst p)))
                                @ ''): '' @ snd (kill ''KILL'' (cmdsubst p))))"
    and "BASE (cmd_cancel kill sh [jid]) =
           (if job_state j \<noteq> ''SUSPENDED '' \<and> job_state j \<noteq> ''RUNNING '' then BASE sh
            else if fst (kill ''KILL'' (cmdsubst p)) = 0 then (BASE sh)(jid \<mapsto> j\<lparr>m_canceled := True\<rparr>)
            else (BASE sh)(jid \<mapsto> j\<lparr>m_canceled := False\<rparr>))"
  using assms
  by (auto simp: cmd_cancel_def handler_defs reply_of_def cat_subst_def string_of_nat_zero_iff
           split: prod.splits)








subsection \<open>The task layer\<close>

lemma wait_any_poll_never_returns_a_result:
  "snd (wait_any_poll ws) = Inr r \<Longrightarrow> r = PyNone"
  by (induction ws) (auto simp: isAlive_attribute_def split: if_splits prod.splits)

lemma Container_remove_cases:
  "Container_remove c t =
     (if task_in t (tasks c) then Inl (AttributeError ''list'' ''delete'') else Inr c)"
  by (simp add: Container_remove_def)

subsection \<open>Suspend and resume on a running job\<close>

lemma cmd_suspend_valid:
  assumes "jid \<noteq> []" "BASE sh jid = Some j" "f_state j = Some st" "f_pid j = Some p"
    "job_state j = ''RUNNING ''" "fst (kill ''STOP'' (cmdsubst p)) = 0"
  shows "cmd_suspend kill sh [jid] =
           sh\<lparr>RETVAL := jid @ '' suspended'', DIR := Some jid,
              BASE := (BASE sh)(jid \<mapsto> j\<lparr>m_suspended := True,
                                          f_state := Some (st @ ''SUSPENDED '' @ [NL]),
                                          f_state_susp := Some (''RUNNING  '' @ [NL])\<rparr>)\<rparr>"
  using assms
  by (auto simp: cmd_suspend_def handler_defs cat_subst_def string_of_nat_zero_iff echo_append_def
           split: prod.splits)

lemma cmd_resume_valid:
  assumes "jid \<noteq> []" "BASE sh jid = Some j" "f_state j = Some st" "f_pid j = Some p"
    "job_state j = ''SUSPENDED ''" "fst (kill ''CONT'' (cmdsubst p)) = 0"
    "f_state_susp j = Some su" "su \<noteq> []"
  shows "cmd_resume kill sh [jid] =
           sh\<lparr>RETVAL := jid @ '' resumed'', DIR := Some jid,
              BASE := (BASE sh)(jid \<mapsto> j\<lparr>m_resumed := True,
                                          f_state := Some (st @ su),
                                          f_state_susp := None\<rparr>)\<rparr>"
  using assms
  by (auto simp: cmd_resume_def handler_defs cat_subst_def string_of_nat_zero_iff cat_append_def
           test_s_def split: prod.splits)


text \<open>For every job with a newline-terminated log whose current token is RUNNING, and kill
  succeeding: after SUSPEND and RESUME the current token is RUNNING followed by two
  spaces.\<close>

lemma suspend_resume_adds_a_space:
  assumes "jid \<noteq> []" "BASE sh jid = Some j" "f_state j = Some (x @ [NL])" "f_pid j = Some p"
    "job_state j = ''RUNNING ''"
    "fst (kill ''STOP'' (cmdsubst p)) = 0" "fst (kill ''CONT'' (cmdsubst p)) = 0"
  shows "\<exists>j2. BASE (cmd_resume kill (cmd_suspend kill sh [jid]) [jid]) jid = Some j2
              \<and> job_state j2 = ''RUNNING  ''"
proof -
  define j1 where "j1 = j\<lparr>m_suspended := True,
                           f_state := Some ((x @ [NL]) @ ''SUSPENDED '' @ [NL]),
                           f_state_susp := Some (''RUNNING  '' @ [NL])\<rparr>"
  define sh1 where "sh1 = cmd_suspend kill sh [jid]"
  have sh1: "sh1 = sh\<lparr>RETVAL := jid @ '' suspended'', DIR := Some jid,
                       BASE := (BASE sh)(jid \<mapsto> j1)\<rparr>"
    unfolding sh1_def j1_def
    by (rule cmd_suspend_valid[where kill = kill, OF assms(1-6)])
  have b1: "BASE sh1 jid = Some j1" by (simp add: sh1)
  have s1: "f_state j1 = Some ((x @ [NL]) @ ''SUSPENDED '' @ [NL])"
    and p1: "f_pid j1 = Some p"
    and u1: "f_state_susp j1 = Some (''RUNNING  '' @ [NL])"
    using assms(4) by (simp_all add: j1_def)
  have "last_state_line (x @ NL # ''SUSPENDED '' @ [NL]) = ''SUSPENDED ''"
    by (rule last_state_line_after_NL) (simp_all add: NL_def SP_def)
  then have c1: "job_state j1 = ''SUSPENDED ''" by (simp add: job_state_def j1_def)
  have ne: "''RUNNING  '' @ [NL] \<noteq> []" by simp
  define j2 where "j2 = j1\<lparr>m_resumed := True,
                            f_state := Some (((x @ [NL]) @ ''SUSPENDED '' @ [NL]) @ ''RUNNING  '' @ [NL]),
                            f_state_susp := None\<rparr>"
  have "cmd_resume kill sh1 [jid] =
          sh1\<lparr>RETVAL := jid @ '' resumed'', DIR := Some jid, BASE := (BASE sh1)(jid \<mapsto> j2)\<rparr>"
    unfolding j2_def
    by (rule cmd_resume_valid[where kill = kill, OF assms(1) b1 s1 p1 c1 assms(7) u1 ne])
  then have b2: "BASE (cmd_resume kill sh1 [jid]) jid = Some j2" by simp
  have "last_state_line ((x @ NL # ''SUSPENDED '') @ NL # ''RUNNING  '' @ [NL]) = ''RUNNING  ''"
    by (rule last_state_line_after_NL) (simp_all add: NL_def SP_def)
  then have "job_state j2 = ''RUNNING  ''" by (simp add: job_state_def j2_def)
  with b2 show ?thesis unfolding sh1_def by blast
qed

section \<open>Properties of the agent\<close>

text \<open>
  C4: the WAIT handler and the STATE handler are the same function: for every shell
  state and every argument list, cmd_wait leaves the same ERROR, RETVAL, DIR and files
  as cmd_state.  So a WAIT line and a STATE line with the same arguments get the same
  reply (the same state token on success, the same ERROR on failure) and leave the same
  files: WAIT reports the current state token and does not block.
\<close>

theorem wait_verb_is_state_verb:
  "cmd_wait sh args = cmd_state sh args
   \<and> (split_IFS l1 = ''WAIT'' # rest \<longrightarrow> split_IFS l2 = ''STATE'' # rest \<longrightarrow>
        reply_to kill sh l1 = reply_to kill sh l2
        \<and> base_after kill sh l1 = base_after kill sh l2)"
proof (intro conjI impI)
  show eq: "cmd_wait sh args = cmd_state sh args" for sh args
    by (simp add: cmd_wait_def cmd_state_def)
  assume w: "split_IFS l1 = ''WAIT'' # rest" and s: "split_IFS l2 = ''STATE'' # rest"
  have "listen_step kill sh l1 = listen_step kill sh l2"
    by (simp add: listen_step_parsed[OF w] listen_step_parsed[OF s] dispatch_def
          unmodelled_verbs_def eq)
  then show "reply_to kill sh l1 = reply_to kill sh l2"
    and "base_after kill sh l1 = base_after kill sh l2"
    by (simp_all add: reply_to_def base_after_def)
qed

text \<open>WAIT 42 and STATE 42 on the running job 42 are both answered with RUNNING.\<close>

theorem wait_verb_is_state_verb_witness:
  "split_IFS ''WAIT  42'' = [''WAIT'', ''42''] \<and> split_IFS ''STATE 42'' = [''STATE'', ''42'']
   \<and> reply_to kill_succeeds example_shell ''STATE 42'' = Some (Reply_OK ''RUNNING '')
   \<and> reply_to kill_succeeds example_shell ''WAIT  42'' = Some (Reply_OK ''RUNNING '')
   \<and> cmd_wait example_shell [''42''] = cmd_state example_shell [''42'']"
proof -
  have a: "split_IFS ''WAIT  42'' = [''WAIT'', ''42'']" by code_simp
  have b: "split_IFS ''STATE 42'' = [''STATE'', ''42'']" by code_simp
  have c: "reply_to kill_succeeds example_shell ''STATE 42'' = Some (Reply_OK ''RUNNING '')"
    by code_simp
  note t = wait_verb_is_state_verb[where ?l1.0 = "''WAIT  42''" and ?l2.0 = "''STATE 42''"
      and rest = "[''42'']" and sh = example_shell and args = "[''42'']" and kill = kill_succeeds]
  from t a b have d: "reply_to kill_succeeds example_shell ''WAIT  42''
      = reply_to kill_succeeds example_shell ''STATE 42''" by blast
  from t have e: "cmd_wait example_shell [''42''] = cmd_state example_shell [''42'']" by blast
  from a b c d e show ?thesis by simp
qed

text \<open>
  C1 (evaluated on the running job 42, kill succeeding): SUSPEND snapshots the state
  token followed by one more space into state.susp, and RESUME appends that snapshot to
  the log.  So after "42 suspended" and "42 resumed" STATE does not answer the token it
  answered before the suspend ("RUNNING" and one space) but "RUNNING" and two spaces,
  and the next SUSPEND is refused as an incorrect state.
\<close>

theorem suspend_resume_does_not_restore_token:
  "map_option snd (listen_loop kill_succeeds example_shell
     [''STATE 42'', ''SUSPEND 42'', ''STATE 42'', ''RESUME 42'', ''STATE 42'', ''SUSPEND 42''])
   = Some [Reply_OK ''RUNNING '', Reply_OK ''42 suspended'', Reply_OK ''SUSPENDED '',
           Reply_OK ''42 resumed'', Reply_OK ''RUNNING  '',
           Reply_ERROR ''job 42 in incorrect state (RUNNING   != RUNNING)'']"
  by code_simp

text \<open>
  C2: when wait returns with status retv and neither the suspended nor the resumed
  marker exists, one pass of the monitor ends the loop and leaves the directory with:
  exit holding the decimal status and a newline; the state log extended by DONE if
  retv is 0 and by FAILED otherwise, and then by CANCELED if and only if the canceled
  marker existed; the canceled marker gone; nothing else changed.  The exit file reads
  back as the number retv, and if STATE then reads DONE the status was 0, if it reads
  FAILED the status was not 0.
\<close>

theorem monitor_writes_exit_and_final_state:
  assumes "\<not> m_suspended j" and "\<not> m_resumed j"
  shows "monitor_wait_returned j retv =
           (j\<lparr>f_exit := Some (string_of_nat retv @ [NL]),
              f_state := Some ((case f_state j of None \<Rightarrow> [] | Some c \<Rightarrow> c)
                               @ (if retv = 0 then ''DONE '' else ''FAILED '') @ [NL]
                               @ (if m_canceled j then ''CANCELED '' @ [NL] else [])),
              m_canceled := False\<rparr>, False)
       \<and> nat_of_string (cat_subst (f_exit (fst (monitor_wait_returned j retv)))) = Some retv
       \<and> (job_state (fst (monitor_wait_returned j retv)) = ''DONE '' \<longrightarrow> retv = 0)
       \<and> (job_state (fst (monitor_wait_returned j retv)) = ''FAILED '' \<longrightarrow> retv \<noteq> 0)"
proof -
  note step = monitor_wait_returned_eq[OF assms, of retv]
  have exit_ok: "nat_of_string (cat_subst (f_exit (fst (monitor_wait_returned j retv)))) = Some retv"
    by (simp add: step cat_subst_def cmdsubst_string_of_nat nat_of_string_string_of_nat)
  have "f_state (fst (monitor_wait_returned j retv)) =
          Some ((case f_state j of None \<Rightarrow> [] | Some c \<Rightarrow> c)
                @ (if retv = 0 then ''DONE '' else ''FAILED '') @ [NL]
                @ (if m_canceled j then ''CANCELED '' @ [NL] else []))"
    by (simp add: step)
  from job_state_after_monitor[OF this] step exit_ok show ?thesis by blast
qed

text \<open>The job 42 whose process ends with status 7: exit holds 7, the log ends in FAILED.\<close>

theorem monitor_writes_exit_and_final_state_witness:
  "\<not> m_suspended example_job \<and> \<not> m_resumed example_job
   \<and> f_exit (fst (monitor_wait_returned example_job 7)) = Some (''7'' @ [NL])
   \<and> f_state (fst (monitor_wait_returned example_job 7))
       = Some (''NEW '' @ [NL] @ ''RUNNING '' @ [NL] @ ''FAILED '' @ [NL])
   \<and> nat_of_string (cat_subst (f_exit (fst (monitor_wait_returned example_job 7)))) = Some 7
   \<and> job_state (fst (monitor_wait_returned example_job 7)) \<noteq> ''DONE ''"
proof -
  have h: "\<not> m_suspended example_job" "\<not> m_resumed example_job"
    by (simp_all add: example_job_def)
  have s7: "string_of_nat 7 = ''7''" by code_simp
  note t = monitor_writes_exit_and_final_state[OF h, of 7]
  from t have eq: "monitor_wait_returned example_job 7 =
           (example_job\<lparr>f_exit := Some (string_of_nat 7 @ [NL]),
              f_state := Some ((case f_state example_job of None \<Rightarrow> [] | Some c \<Rightarrow> c)
                               @ (if (7::nat) = 0 then ''DONE '' else ''FAILED '') @ [NL]
                               @ (if m_canceled example_job then ''CANCELED '' @ [NL] else [])),
              m_canceled := False\<rparr>, False)"
    by (rule conjunct1)
  have a: "f_exit (fst (monitor_wait_returned example_job 7)) = Some (''7'' @ [NL])"
    by (subst eq) (simp add: s7)
  have b: "f_state (fst (monitor_wait_returned example_job 7))
       = Some (''NEW '' @ [NL] @ ''RUNNING '' @ [NL] @ ''FAILED '' @ [NL])"
    by (subst eq) (simp add: example_job_def)
  from t have c: "nat_of_string (cat_subst (f_exit (fst (monitor_wait_returned example_job 7)))) = Some 7"
    by blast
  from t have d: "job_state (fst (monitor_wait_returned example_job 7)) \<noteq> ''DONE ''"
    by auto
  from h a b c d show ?thesis by blast
qed

text \<open>
  C6: for a command line that is RESULT and a job id whose directory and state file
  exist, the reply is OK with the content of the exit file (trailing newlines removed)
  exactly when the current state token is DONE, FAILED or CANCELED and the exit file
  exists; in any other current state the reply is the ERROR "job id in incorrect state
  (token != DONE|FAILED|CANCELED)", and in a terminal state without exit file the reply
  is the ERROR "job id in incorrect state -- no exit code available".  No file changes.
\<close>

theorem result_reply:
  assumes "split_IFS line = [''RESULT'', jid]" "BASE sh jid = Some j" "f_state j = Some st"
  shows "reply_to kill sh line =
           Some (if job_state j = ''DONE '' \<or> job_state j = ''FAILED '' \<or> job_state j = ''CANCELED ''
                 then (case f_exit j of
                         Some e \<Rightarrow> Reply_OK (cmdsubst e)
                       | None \<Rightarrow> Reply_ERROR (''job '' @ jid
                                   @ '' in incorrect state -- no exit code available''))
                 else Reply_ERROR (''job '' @ jid @ '' in incorrect state ('' @ job_state j
                                     @ '' != DONE|FAILED|CANCELED)''))
       \<and> base_after kill sh line = Some (BASE sh)
       \<and> ((\<exists>v. reply_to kill sh line = Some (Reply_OK v))
            = ((job_state j = ''DONE '' \<or> job_state j = ''FAILED '' \<or> job_state j = ''CANCELED '')
               \<and> f_exit j \<noteq> None))"
proof -
  let ?sh = "sh\<lparr>ERROR := ''OK'', RETVAL := jid\<rparr>"
  note p = dispatch_one_arg[OF assms(1)]
  have pre: "BASE ?sh jid = Some j" "ERROR ?sh = ''OK''" using assms(2) by simp_all
  have step: "listen_step kill sh line = Some (cmd_result ?sh [jid], reply_of (cmd_result ?sh [jid]))"
    using p(2) by (simp add: p(3)[of kill sh] dispatch_def unmodelled_verbs_def)
  have r: "reply_to kill sh line = Some (reply_of (cmd_result ?sh [jid]))"
    and b: "base_after kill sh line = Some (BASE ?sh)"
    using cmd_result_valid(2)[OF p(1) pre(1) assms(3) pre(2)]
    by (simp_all add: reply_to_def base_after_def step)
  show ?thesis
    unfolding r b cmd_result_valid(1)[OF p(1) pre(1) assms(3) pre(2)]
    by (auto split: option.splits)
qed

text \<open>Job 42 after its process ended with status 7: RESULT 42 is answered with 7.\<close>

theorem result_reply_witness:
  "split_IFS ''RESULT 42'' = [''RESULT'', ''42'']
   \<and> BASE finished_shell ''42'' = Some finished_job
   \<and> f_state finished_job = Some (''NEW '' @ [NL] @ ''RUNNING '' @ [NL] @ ''FAILED '' @ [NL])
   \<and> job_state finished_job = ''FAILED ''
   \<and> f_exit finished_job = Some (''7'' @ [NL])
   \<and> reply_to kill_succeeds finished_shell ''RESULT 42'' = Some (Reply_OK ''7'')
   \<and> base_after kill_succeeds finished_shell ''RESULT 42'' = Some (BASE finished_shell)"
proof -
  have a: "split_IFS ''RESULT 42'' = [''RESULT'', ''42'']" by code_simp
  have b: "BASE finished_shell ''42'' = Some finished_job" by (simp add: finished_shell_def)
  have c: "f_state finished_job = Some (''NEW '' @ [NL] @ ''RUNNING '' @ [NL] @ ''FAILED '' @ [NL])"
    by code_simp
  have d: "job_state finished_job = ''FAILED ''" by code_simp
  have e: "f_exit finished_job = Some (''7'' @ [NL])" by code_simp
  have f: "cmdsubst [CHR ''7'', NL] = ''7''" by code_simp
  note t = result_reply[OF a b c, of kill_succeeds]
  from t have r: "reply_to kill_succeeds finished_shell ''RESULT 42'' = Some (Reply_OK ''7'')"
    by (simp add: d e f)
  from t have u: "base_after kill_succeeds finished_shell ''RESULT 42'' = Some (BASE finished_shell)"
    by blast
  from a b c d e r u show ?thesis by blast
qed

text \<open>
  C5, as amended: for a command line that is CANCEL and a job id whose directory, state
  file and pid file exist, the reply is OK "id canceled", with the canceled marker left
  in place, only when the current state token is RUNNING or SUSPENDED (and kill
  succeeds); in any other current state the reply is the incorrect-state ERROR and no
  file changes; when kill fails the reply is the ERROR "cancel failed", the canceled
  marker does not exist afterwards and every other file is as before, so the record is
  unchanged whenever the marker did not exist before the call.
\<close>

theorem cancel_reply_and_record:
  assumes "split_IFS line = [''CANCEL'', jid]" "BASE sh jid = Some j" "f_state j = Some st"
    "f_pid j = Some p"
  shows "reply_to kill sh line =
           Some (if job_state j \<noteq> ''SUSPENDED '' \<and> job_state j \<noteq> ''RUNNING ''
                 then Reply_ERROR (''job '' @ jid @ '' in incorrect state ('' @ [CHR 0x27] @ job_state j
                                     @ [CHR 0x27] @ '' != '' @ [CHR 0x27] @ ''SUSPENDED|RUNNING''
                                     @ [CHR 0x27] @ '')'')
                 else if fst (kill ''KILL'' (cmdsubst p)) = 0 then Reply_OK (jid @ '' canceled'')
                 else Reply_ERROR (''cancel failed ('' @ string_of_nat (fst (kill ''KILL'' (cmdsubst p)))
                                     @ ''): '' @ snd (kill ''KILL'' (cmdsubst p))))
       \<and> base_after kill sh line =
           Some (if job_state j \<noteq> ''SUSPENDED '' \<and> job_state j \<noteq> ''RUNNING '' then BASE sh
                 else if fst (kill ''KILL'' (cmdsubst p)) = 0
                 then (BASE sh)(jid \<mapsto> j\<lparr>m_canceled := True\<rparr>)
                 else (BASE sh)(jid \<mapsto> j\<lparr>m_canceled := False\<rparr>))
       \<and> (\<not> m_canceled j \<longrightarrow> (BASE sh)(jid \<mapsto> j\<lparr>m_canceled := False\<rparr>) = BASE sh)"
proof -
  let ?sh = "sh\<lparr>ERROR := ''OK'', RETVAL := jid\<rparr>"
  note q = dispatch_one_arg[OF assms(1)]
  have pre: "BASE ?sh jid = Some j" "ERROR ?sh = ''OK''" using assms(2) by simp_all
  have step: "listen_step kill sh line
                = Some (cmd_cancel kill ?sh [jid], reply_of (cmd_cancel kill ?sh [jid]))"
    using q(2) by (simp add: q(3)[of kill sh] dispatch_def unmodelled_verbs_def)
  have r: "reply_to kill sh line = Some (reply_of (cmd_cancel kill ?sh [jid]))"
    and b: "base_after kill sh line = Some (BASE (cmd_cancel kill ?sh [jid]))"
    by (simp_all add: reply_to_def base_after_def step)
  have same: "(BASE sh)(jid \<mapsto> j\<lparr>m_canceled := False\<rparr>) = BASE sh" if "\<not> m_canceled j"
  proof -
    from that have "j\<lparr>m_canceled := False\<rparr> = j" by simp
    then show ?thesis using assms(2) by (simp add: map_upd_triv)
  qed
  show ?thesis
    unfolding r b cmd_cancel_valid[OF q(1) pre(1) assms(3) assms(4) pre(2)]
    using same by simp
qed

text \<open>CANCEL 42 on the running job 42, with kill succeeding and with kill failing.\<close>

theorem cancel_reply_and_record_witness:
  "split_IFS ''CANCEL 42'' = [''CANCEL'', ''42'']
   \<and> BASE example_shell ''42'' = Some example_job
   \<and> f_state example_job = Some (''NEW '' @ [NL] @ ''RUNNING '' @ [NL])
   \<and> f_pid example_job = Some (''4711'' @ [NL])
   \<and> \<not> m_canceled example_job
   \<and> job_state example_job = ''RUNNING ''
   \<and> reply_to kill_succeeds example_shell ''CANCEL 42'' = Some (Reply_OK ''42 canceled'')
   \<and> base_after kill_succeeds example_shell ''CANCEL 42''
        = Some ((BASE example_shell)(''42'' \<mapsto> example_job\<lparr>m_canceled := True\<rparr>))
   \<and> reply_to kill_fails example_shell ''CANCEL 42''
        = Some (Reply_ERROR ''cancel failed (1): kill: No such process'')
   \<and> base_after kill_fails example_shell ''CANCEL 42'' = Some (BASE example_shell)"
proof -
  have a: "split_IFS ''CANCEL 42'' = [''CANCEL'', ''42'']" by code_simp
  have b: "BASE example_shell ''42'' = Some example_job" by (simp add: example_shell_def)
  have c: "f_state example_job = Some (''NEW '' @ [NL] @ ''RUNNING '' @ [NL])"
    by (simp add: example_job_def)
  have d: "f_pid example_job = Some (''4711'' @ [NL])" by (simp add: example_job_def)
  have e: "\<not> m_canceled example_job" by (simp add: example_job_def)
  have f: "job_state example_job = ''RUNNING ''" by code_simp
  have g: "string_of_nat (Suc 0) = ''1''" by code_simp
  note ok = cancel_reply_and_record[OF a b c d, of kill_succeeds]
  note ko = cancel_reply_and_record[OF a b c d, of kill_fails]
  from ok have r1: "reply_to kill_succeeds example_shell ''CANCEL 42'' = Some (Reply_OK ''42 canceled'')"
    by (simp add: f kill_succeeds_def)
  from ok have b1: "base_after kill_succeeds example_shell ''CANCEL 42''
        = Some ((BASE example_shell)(''42'' \<mapsto> example_job\<lparr>m_canceled := True\<rparr>))"
    by (simp add: f kill_succeeds_def)
  from ko have r2: "reply_to kill_fails example_shell ''CANCEL 42''
        = Some (Reply_ERROR ''cancel failed (1): kill: No such process'')"
    by (simp add: f g kill_fails_def)
  from ko e have b2: "base_after kill_fails example_shell ''CANCEL 42'' = Some (BASE example_shell)"
    by (simp add: f kill_fails_def)
  from a b c d e f r1 b1 r2 b2 show ?thesis by blast
qed

text \<open>
  C5 as stated fails where the canceled marker of an earlier CANCEL is still there (the
  monitor has not yet seen the job end) and kill now fails: the marker is removed, so
  the record is not unchanged on error.
\<close>

theorem cancel_removes_earlier_marker:
  "BASE marked_shell ''42'' = Some (example_job\<lparr>m_canceled := True\<rparr>)
   \<and> f_state (example_job\<lparr>m_canceled := True\<rparr>) = Some (''NEW '' @ [NL] @ ''RUNNING '' @ [NL])
   \<and> f_pid (example_job\<lparr>m_canceled := True\<rparr>) = Some (''4711'' @ [NL])
   \<and> job_state (example_job\<lparr>m_canceled := True\<rparr>) = ''RUNNING ''
   \<and> reply_to kill_fails marked_shell ''CANCEL 42''
        = Some (Reply_ERROR ''cancel failed (1): kill: No such process'')
   \<and> dir_after kill_fails marked_shell ''CANCEL 42'' ''42'' = Some (example_job\<lparr>m_canceled := False\<rparr>)
   \<and> dir_after kill_fails marked_shell ''CANCEL 42'' ''42'' \<noteq> BASE marked_shell ''42''"
  by code_simp




section \<open>Properties of the task layer\<close>

text \<open>
  C3 (evaluated on a container with one unbound task whose worker has finished with a
  result): the poll of wait_any tests \<^verbatim>\<open>not thread.isAlive\<close>, the bound method and not its
  result, which is never true; so the result of the finished worker is not returned and
  the call falls through with None.
\<close>

theorem wait_any_drops_result_of_finished_worker:
  "w_state finished_worker = DONE \<and> w_alive finished_worker = False
   \<and> w_result finished_worker = PyTask 1
   \<and> length (tasks example_container) = 1
   \<and> Container_wait threads_done workers_finished example_container Wait_ANY (Some 5)
        = (Waited_any [[Adaptor_task_wait 1 5]] [0.01], Inr PyNone)"
  by (simp add: Container_wait_def Container_wait_any_def wait_any_workers_def get_buckets_def
        Task_wait_def isAlive_attribute_def finished_worker_def example_container_def
        example_task_def workers_finished_def)

text \<open>
  C7, as amended: Task.run does not look at the state.  In every state it leaves the
  task as it is and makes exactly one call, run of the thread for a task that wraps a
  thread and task_run of the adaptor otherwise; the call made is the same whatever
  the state.
\<close>

theorem task_run_in_every_state:
  "fst (Task_run t) = t
   \<and> snd (Task_run t) = [if t_thread t then Thread_run (tid t) else Adaptor_task_run (tid t)]
   \<and> snd (Task_run (t\<lparr>t_state := s\<rparr>)) = snd (Task_run t)"
  by (simp add: Task_run_def)

text \<open>
  C7 as stated fails: for a task in state RUNNING, run issues task_run of the adaptor
  again, and two runs issue it twice.
\<close>

theorem task_run_reissues_task_run:
  "t_state example_task = RUNNING \<and> t_state example_task \<noteq> NEW
   \<and> snd (Task_run example_task) = [Adaptor_task_run 1]
   \<and> snd (Task_run (fst (Task_run example_task))) = [Adaptor_task_run 1]
   \<and> snd (Task_run example_task) @ snd (Task_run (fst (Task_run example_task)))
        \<noteq> snd (Task_run example_task)"
  by (simp add: Task_run_def example_task_def)

text \<open>
  C8 (evaluated on a container that holds the task): remove raises AttributeError, where
  remove-by-value would leave the empty list; for a task that is not in the list it
  returns the container as it is.
\<close>

theorem remove_member_raises:
  "task_in example_task (get_tasks example_container)
   \<and> get_size example_container = 1
   \<and> Container_remove example_container example_task = Inl (AttributeError ''list'' ''delete'')
   \<and> list_remove example_task (get_tasks example_container) = []
   \<and> Container_remove example_container bound_task = Inr example_container"
  by (simp add: Container_remove_def task_in_def get_tasks_def get_size_def
        example_container_def example_task_def bound_task_def)

text \<open>
  C9 (evaluated on a container with one bound and one unbound task, timeout 5): wait_all
  passes the timeout to container_wait of the bound container, but calls wait of the
  unbound task without argument, so that task_wait of the adaptor gets the default -1;
  wait_any on the same container passes 5 to both.
\<close>

theorem wait_all_drops_timeout_for_unbound_task:
  "Container_wait threads_done workers_finished mixed_container Wait_ALL (Some 5)
     = (Waited_all [example_task] [Container_wait_call 9 [2] Wait_ALL 5, Adaptor_task_wait 1 (- 1)],
        Inr (PyTask 1))
   \<and> fst (Container_wait threads_done workers_finished mixed_container Wait_ANY (Some 5))
     = Waited_any [[Container_wait_call 9 [2] Wait_ANY 5], [Adaptor_task_wait 1 5]] [0.01, 0.01]"
  by (simp add: Container_wait_def Container_wait_all_def Container_wait_any_def
        wait_any_workers_def get_buckets_def bucket_tasks_def
        Task_wait_def isAlive_attribute_def finished_worker_def mixed_container_def
        example_task_def bound_task_def workers_finished_def)


end
